theory Spec2Isabelle
  imports Main "HOL-Library.Sublist"
begin

section \<open>JavaScript values and the built-ins the agent core calls\<close>

text \<open>
  The tool input the planner sends is untyped JSON (\<^verbatim>\<open>Record<string, unknown>\<close>), cast
  without a check at every use. The values are therefore modelled as they are at run
  time: a property that is absent reads as \<open>JUndefined\<close>. Strings are byte strings;
  numbers are the integer-valued ones.
\<close>

datatype jsval =
    JUndefined
  | JNull
  | JBool bool
  | JNum int
  | JStr string
  | JArr "jsval list"
  | JObj "(string \<times> jsval) list"

text \<open>
  What a \<^verbatim>\<open>throw\<close> carries: an instance of \<^verbatim>\<open>Error\<close> (with its message), or any
  other value.
\<close>

datatype thrown = JsError string | NonError jsval

subsection \<open>Strings\<close>

definition upper_letters :: string where
  "upper_letters = ''ABCDEFGHIJKLMNOPQRSTUVWXYZ''"

definition lower_letters :: string where
  "lower_letters = ''abcdefghijklmnopqrstuvwxyz''"

definition lower_char :: "char \<Rightarrow> char" where
  "lower_char c = (case map_of (zip upper_letters lower_letters) c of Some l \<Rightarrow> l | None \<Rightarrow> c)"

text \<open>\<^verbatim>\<open>String.prototype.toLowerCase\<close>, on the ASCII letters.\<close>

definition toLowerCase :: "string \<Rightarrow> string" where
  "toLowerCase s = map lower_char s"

text \<open>The white space \<^verbatim>\<open>String.prototype.trim\<close> strips, in the ASCII range.\<close>

definition is_space :: "char \<Rightarrow> bool" where
  "is_space c = (c \<in> set [CHR 0x09, CHR 0x0A, CHR 0x0B, CHR 0x0C, CHR 0x0D, CHR 0x20])"

definition trim :: "string \<Rightarrow> string" where
  "trim s = rev (dropWhile is_space (rev (dropWhile is_space s)))"

text \<open>\<^verbatim>\<open>String.prototype.includes\<close>: the second string occurs in the first.\<close>

fun str_includes :: "string \<Rightarrow> string \<Rightarrow> bool" where
  "str_includes [] sub = (sub = [])"
| "str_includes (c # cs) sub = (prefix sub (c # cs) \<or> str_includes cs sub)"

text \<open>\<^verbatim>\<open>Array.prototype.join\<close> on strings.\<close>

fun join :: "string \<Rightarrow> string list \<Rightarrow> string" where
  "join sep [] = []"
| "join sep [x] = x"
| "join sep (x # y # ys) = x @ sep @ join sep (y # ys)"

definition digit_char :: "nat \<Rightarrow> char" where
  "digit_char d = ''0123456789'' ! d"

fun decimal :: "nat \<Rightarrow> string" where
  "decimal n = (if n < 10 then [digit_char n] else decimal (n div 10) @ [digit_char (n mod 10)])"

declare decimal.simps [simp del]

definition decimal_int :: "int \<Rightarrow> string" where
  "decimal_int i = (if i < 0 then ''-'' @ decimal (nat (- i)) else decimal (nat i))"

subsection \<open>Conversions and property reads\<close>

text \<open>\<^verbatim>\<open>String(v)\<close>, which a template literal applies to each of its holes.\<close>

fun String_of :: "jsval \<Rightarrow> string"
  and join_elem :: "jsval \<Rightarrow> string" where
  "String_of JUndefined = ''undefined''"
| "String_of JNull = ''null''"
| "String_of (JBool b) = (if b then ''true'' else ''false'')"
| "String_of (JNum i) = decimal_int i"
| "String_of (JStr s) = s"
| "String_of (JArr xs) = join '','' (map join_elem xs)"
| "String_of (JObj fs) = ''[object Object]''"
| "join_elem JUndefined = []"
| "join_elem JNull = []"
| "join_elem (JBool b) = String_of (JBool b)"
| "join_elem (JNum i) = String_of (JNum i)"
| "join_elem (JStr s) = String_of (JStr s)"
| "join_elem (JArr xs) = String_of (JArr xs)"
| "join_elem (JObj fs) = String_of (JObj fs)"

text \<open>\<^verbatim>\<open>xs.join(sep)\<close> on an array of values: \<^verbatim>\<open>null\<close> and \<^verbatim>\<open>undefined\<close> print empty.\<close>

definition join_vals :: "string \<Rightarrow> jsval list \<Rightarrow> string" where
  "join_vals sep xs = join sep (map join_elem xs)"

text \<open>Truthiness, as \<^verbatim>\<open>!v\<close> and \<^verbatim>\<open>if (v)\<close> read it.\<close>

fun truthy :: "jsval \<Rightarrow> bool" where
  "truthy JUndefined = False"
| "truthy JNull = False"
| "truthy (JBool b) = b"
| "truthy (JNum i) = (i \<noteq> 0)"
| "truthy (JStr s) = (s \<noteq> [])"
| "truthy (JArr xs) = True"
| "truthy (JObj fs) = True"

text \<open>\<^verbatim>\<open>obj[key]\<close> on the input record: an absent key reads \<^verbatim>\<open>undefined\<close>.\<close>

definition field :: "(string \<times> jsval) list \<Rightarrow> string \<Rightarrow> jsval" where
  "field fs k = (case map_of fs k of Some v \<Rightarrow> v | None \<Rightarrow> JUndefined)"

text \<open>
  \<^verbatim>\<open>v.name\<close> on any value: reading a property of \<^verbatim>\<open>undefined\<close> or \<^verbatim>\<open>null\<close> throws a
  TypeError (the message is the engine's); \<^verbatim>\<open>length\<close> exists on arrays and strings
  (of a string it counts the bytes here; the source only compares it with 0 and prints
  it).
\<close>

definition cannot_read :: "jsval \<Rightarrow> string \<Rightarrow> thrown" where
  "cannot_read v name =
     JsError (''Cannot read properties of '' @ String_of v @ '' (reading '' @ [CHR 0x27] @ name @ [CHR 0x27] @ '')'')"

fun get_prop :: "jsval \<Rightarrow> string \<Rightarrow> thrown + jsval" where
  "get_prop JUndefined name = Inl (cannot_read JUndefined name)"
| "get_prop JNull name = Inl (cannot_read JNull name)"
| "get_prop (JObj fs) name = Inr (field fs name)"
| "get_prop (JArr xs) name = Inr (if name = ''length'' then JNum (int (length xs)) else JUndefined)"
| "get_prop (JStr s) name = Inr (if name = ''length'' then JNum (int (length s)) else JUndefined)"
| "get_prop (JBool b) name = Inr JUndefined"
| "get_prop (JNum i) name = Inr JUndefined"

text \<open>
  \<^verbatim>\<open>expr.toLowerCase()\<close> where \<open>expr\<close> was cast to \<^verbatim>\<open>string\<close>: only a string has the
  method. \<open>what\<close> is the source text of the expression, which the engine's message quotes.
\<close>

definition not_a_function :: "string \<Rightarrow> string \<Rightarrow> thrown" where
  "not_a_function what name = JsError (what @ ''.'' @ name @ '' is not a function'')"

fun call_toLowerCase :: "string \<Rightarrow> jsval \<Rightarrow> thrown + string" where
  "call_toLowerCase what (JStr s) = Inr (toLowerCase s)"
| "call_toLowerCase what JUndefined = Inl (cannot_read JUndefined ''toLowerCase'')"
| "call_toLowerCase what JNull = Inl (cannot_read JNull ''toLowerCase'')"
| "call_toLowerCase what v = Inl (not_a_function what ''toLowerCase'')"

subsection \<open>Callbacks that may throw\<close>

text \<open>
  \<^verbatim>\<open>Array.prototype.map\<close> and \<^verbatim>\<open>filter\<close> with a callback that may throw: elements are
  visited from the left, and the first exception ends the call.
\<close>

fun try_map :: "('a \<Rightarrow> thrown + 'b) \<Rightarrow> 'a list \<Rightarrow> thrown + 'b list" where
  "try_map f [] = Inr []"
| "try_map f (x # xs) =
     (case f x of
        Inl e \<Rightarrow> Inl e
      | Inr y \<Rightarrow> (case try_map f xs of Inl e \<Rightarrow> Inl e | Inr ys \<Rightarrow> Inr (y # ys)))"

fun try_filter :: "('a \<Rightarrow> thrown + bool) \<Rightarrow> 'a list \<Rightarrow> thrown + 'a list" where
  "try_filter p [] = Inr []"
| "try_filter p (x # xs) =
     (case p x of
        Inl e \<Rightarrow> Inl e
      | Inr keep \<Rightarrow>
          (case try_filter p xs of
             Inl e \<Rightarrow> Inl e
           | Inr ys \<Rightarrow> Inr (if keep then x # ys else ys)))"

subsection \<open>\<^verbatim>\<open>JSON.stringify\<close>\<close>

definition hex_digit :: "nat \<Rightarrow> char" where
  "hex_digit d = ''0123456789abcdef'' ! d"

definition escape_char :: "char \<Rightarrow> string" where
  "escape_char c =
     (if c = CHR 0x22 then [CHR 0x5C, CHR 0x22]
      else if c = CHR 0x5C then [CHR 0x5C, CHR 0x5C]
      else if c = CHR 0x08 then [CHR 0x5C, CHR ''b'']
      else if c = CHR 0x0C then [CHR 0x5C, CHR ''f'']
      else if c = CHR 0x0A then [CHR 0x5C, CHR ''n'']
      else if c = CHR 0x0D then [CHR 0x5C, CHR ''r'']
      else if c = CHR 0x09 then [CHR 0x5C, CHR ''t'']
      else if (of_char c :: nat) < 32
        then [CHR 0x5C, CHR ''u'', CHR ''0'', CHR ''0'',
              hex_digit ((of_char c :: nat) div 16), hex_digit ((of_char c :: nat) mod 16)]
      else [c])"

definition quote :: "string \<Rightarrow> string" where
  "quote s = [CHR 0x22] @ concat (map escape_char s) @ [CHR 0x22]"

text \<open>
  The serialisation of one value with the indentation unit \<open>gap\<close> at the current
  indentation \<open>ind\<close>; \<open>None\<close> is \<^verbatim>\<open>undefined\<close> (no text). In an array \<^verbatim>\<open>undefined\<close>
  prints \<^verbatim>\<open>null\<close>, in an object the property is left out.
\<close>

fun serialize :: "string \<Rightarrow> string \<Rightarrow> jsval \<Rightarrow> string option" where
  "serialize gap ind JUndefined = None"
| "serialize gap ind JNull = Some ''null''"
| "serialize gap ind (JBool b) = Some (if b then ''true'' else ''false'')"
| "serialize gap ind (JNum i) = Some (decimal_int i)"
| "serialize gap ind (JStr s) = Some (quote s)"
| "serialize gap ind (JArr xs) =
     (let partial = map (\<lambda>x. case serialize gap (ind @ gap) x of None \<Rightarrow> ''null'' | Some t \<Rightarrow> t) xs
      in Some (if partial = [] then ''[]''
               else if gap = [] then ''['' @ join '','' partial @ '']''
               else ''['' @ [CHR 0x0A] @ ind @ gap
                    @ join ('','' @ [CHR 0x0A] @ ind @ gap) partial
                    @ [CHR 0x0A] @ ind @ '']''))"
| "serialize gap ind (JObj fs) =
     (let partial = concat (map (\<lambda>kv. case serialize gap (ind @ gap) (snd kv) of
                                          None \<Rightarrow> []
                                        | Some t \<Rightarrow> [quote (fst kv) @ '':'' @ (if gap = [] then [] else '' '') @ t]) fs)
      in Some (if partial = [] then ''{}''
               else if gap = [] then ''{'' @ join '','' partial @ ''}''
               else ''{'' @ [CHR 0x0A] @ ind @ gap
                    @ join ('','' @ [CHR 0x0A] @ ind @ gap) partial
                    @ [CHR 0x0A] @ ind @ ''}''))"

text \<open>
  \<^verbatim>\<open>JSON.stringify(v)\<close> and \<^verbatim>\<open>JSON.stringify(v, null, 2)\<close>. Every call in the source passes
  an object literal or an array, for which the result is a string; on \<^verbatim>\<open>undefined\<close>
  itself JavaScript returns \<^verbatim>\<open>undefined\<close>, shown here as the empty text.
\<close>

definition JSON_stringify :: "jsval \<Rightarrow> string" where
  "JSON_stringify v = (case serialize [] [] v of Some t \<Rightarrow> t | None \<Rightarrow> [])"

definition JSON_stringify_2 :: "jsval \<Rightarrow> string" where
  "JSON_stringify_2 v = (case serialize ''  '' [] v of Some t \<Rightarrow> t | None \<Rightarrow> [])"

text \<open>The object literal \<^verbatim>\<open>{ error: msg }\<close>.\<close>

definition error_object :: "string \<Rightarrow> jsval" where
  "error_object msg = JObj [(''error'', JStr msg)]"

section \<open>tools.ts: access guard, error normaliser, tool executor\<close>

subsection \<open>ToolContext\<close>

text \<open>
  One entry of \<^verbatim>\<open>allowedRepos\<close>, \<^verbatim>\<open>{ owner: string; repo: string }\<close>. The fields carry a
  prefix because \<open>owner\<close> and \<open>repo\<close> name the arguments of the functions below.
\<close>

datatype repo_ref = RepoRef (r_owner: string) (r_repo: string)

text \<open>
  \<^verbatim>\<open>ToolContext\<close>. The \<^verbatim>\<open>octokit\<close> handle is opaque to this code and is represented
  by the environment below; \<^verbatim>\<open>since\<close> is a \<^verbatim>\<open>Date\<close>, kept as its epoch milliseconds.
  An optional field that is not set is \<open>None\<close>.
\<close>

record ToolContext =
  since :: int
  slackToken :: string
  slackChannelId :: string
  timezone :: string
  allowedRepos :: "repo_ref list option"
  allowedMembers :: "string list option"

subsection \<open>Validation helpers\<close>

text \<open>
  The callback of \<^verbatim>\<open>ctx.allowedRepos.some(...)\<close>, with \<^verbatim>\<open>&&\<close> evaluated from the left:
  \<^verbatim>\<open>repo.toLowerCase()\<close> is reached only for an entry whose owner already matched.
\<close>

fun some_repo :: "jsval \<Rightarrow> jsval \<Rightarrow> repo_ref list \<Rightarrow> thrown + bool" where
  "some_repo owner repo [] = Inr False"
| "some_repo owner repo (r # rs) =
     (case call_toLowerCase ''owner'' owner of
        Inl e \<Rightarrow> Inl e
      | Inr lo \<Rightarrow>
          if toLowerCase (r_owner r) = lo
          then (case call_toLowerCase ''repo'' repo of
                  Inl e \<Rightarrow> Inl e
                | Inr lr \<Rightarrow> if toLowerCase (r_repo r) = lr then Inr True else some_repo owner repo rs)
          else some_repo owner repo rs)"

definition validateRepo :: "jsval \<Rightarrow> jsval \<Rightarrow> ToolContext \<Rightarrow> thrown + string option" where
  "validateRepo owner repo ctx =
     (case allowedRepos ctx of
        None \<Rightarrow> Inr None
      | Some repos \<Rightarrow>
          (case some_repo owner repo repos of
             Inl e \<Rightarrow> Inl e
           | Inr allowed \<Rightarrow>
               if \<not> allowed
               then Inr (Some (''Access denied: repository '' @ [CHR 0x22] @ String_of owner @ ''/''
                               @ String_of repo @ [CHR 0x22]
                               @ '' is not in the configured list. Allowed repos: ''
                               @ join '', '' (map (\<lambda>r. r_owner r @ ''/'' @ r_repo r) repos)))
               else Inr None))"

text \<open>
  \<^verbatim>\<open>members.some((m) => m.toLowerCase() === rhs)\<close>, where \<open>rhs\<close> is the outcome of
  evaluating the right operand (it is evaluated once per visited member, always with
  the same outcome; with no member it is not evaluated).
\<close>

fun some_member :: "(thrown + string) \<Rightarrow> string list \<Rightarrow> thrown + bool" where
  "some_member rhs [] = Inr False"
| "some_member rhs (m # ms) =
     (case rhs of
        Inl e \<Rightarrow> Inl e
      | Inr l \<Rightarrow> if toLowerCase m = l then Inr True else some_member rhs ms)"

definition validateMember :: "jsval \<Rightarrow> ToolContext \<Rightarrow> thrown + string option" where
  "validateMember username ctx =
     (case allowedMembers ctx of
        None \<Rightarrow> Inr None
      | Some members \<Rightarrow>
          (case some_member (call_toLowerCase ''username'' username) members of
             Inl e \<Rightarrow> Inl e
           | Inr allowed \<Rightarrow>
               if \<not> allowed
               then Inr (Some (''Access denied: '' @ [CHR 0x22] @ String_of username @ [CHR 0x22]
                               @ '' is not a configured team member. Allowed members: ''
                               @ join '', '' members))
               else Inr None))"

subsection \<open>Error normaliser\<close>

definition formatGitHubError :: "thrown \<Rightarrow> string" where
  "formatGitHubError error =
     (case error of
        NonError v \<Rightarrow> String_of v
      | JsError msg \<Rightarrow>
          if str_includes msg ''Not Found'' \<or> str_includes msg ''404''
          then ''Repository or user not found. The repo may be private or the name may be incorrect.''
          else if str_includes msg ''Bad credentials'' \<or> str_includes msg ''401''
          then ''GitHub authentication failed. The token may be invalid or expired.''
          else if str_includes msg ''rate limit'' \<or> str_includes msg ''403''
          then ''GitHub API rate limit exceeded. Please wait a few minutes and try again.''
          else msg)"

subsection \<open>The collaborators behind the executor\<close>

text \<open>
  The four awaited calls of \<^verbatim>\<open>executeTool\<close>, with their arguments (without the opaque
  \<^verbatim>\<open>octokit\<close> handle): \<^verbatim>\<open>fetchCommitsByUser(octokit, owner, repo, username, since)\<close> and its
  two siblings, and
  \<^verbatim>\<open>postStandupToSlack(slackToken, slackChannelId, notes, title, dateLabel)\<close>.
\<close>

datatype request =
    FetchCommitsByUser jsval jsval jsval int
  | FetchPRsByUser jsval jsval jsval int
  | FetchIssueActivityByUser jsval jsval jsval int
  | PostStandupToSlack string string "jsval list" string string

text \<open>Content blocks and history entries (\<^verbatim>\<open>Anthropic.MessageParam\<close>).\<close>

datatype ToolUseBlock = ToolUseBlock (tool_id: string) (tool_name: string) (tool_input: "(string \<times> jsval) list")

text \<open>
  \<^verbatim>\<open>{ type: "tool_result", tool_use_id, content }\<close>, with \<^verbatim>\<open>is_error: true\<close> in the
  \<^verbatim>\<open>catch\<close> branch only: \<open>None\<close> is a block without the property.
\<close>

datatype ToolResultBlockParam =
  ToolResultBlockParam (tool_use_id: string) (result_content: string) (is_error: "bool option")

datatype block = Text string | ToolUse ToolUseBlock | ToolResult ToolResultBlockParam

datatype role = User | Assistant

datatype content = Plain string | Blocks "block list"

datatype MessageParam = MessageParam (role: role) (content: content)

text \<open>
  What is observable outside the process, in order: an inference call with the system
  prompt and the history it was given, a collaborator call being issued, and that call
  settling (with a value or an exception).
\<close>

datatype event =
    MessagesCreate string "MessageParam list"
  | Issued request
  | Settled request

text \<open>
  The environment answers every external call. Each answer may depend on everything
  that happened before (the event list), so the environment is an arbitrary
  deterministic one. \<open>completes_next\<close> is the network's timing: given what happened so
  far and the indices of the tool calls still in flight, the position in that list of
  the one whose call settles next (read modulo the length of the list).
  \<open>toLocaleDateString\<close> is \<^verbatim>\<open>new Date().toLocaleDateString("en-IN", {..., timeZone})\<close>:
  it reads the clock and throws a RangeError on a time zone the runtime does not know.
\<close>

record env =
  messages_create :: "event list \<Rightarrow> string \<Rightarrow> MessageParam list \<Rightarrow> thrown + block list"
  fetchCommitsByUser :: "event list \<Rightarrow> jsval \<Rightarrow> jsval \<Rightarrow> jsval \<Rightarrow> int \<Rightarrow> thrown + jsval list"
  fetchPRsByUser :: "event list \<Rightarrow> jsval \<Rightarrow> jsval \<Rightarrow> jsval \<Rightarrow> int \<Rightarrow> thrown + jsval list"
  fetchIssueActivityByUser :: "event list \<Rightarrow> jsval \<Rightarrow> jsval \<Rightarrow> jsval \<Rightarrow> int \<Rightarrow> thrown + jsval list"
  postStandupToSlack :: "event list \<Rightarrow> string \<Rightarrow> string \<Rightarrow> jsval list \<Rightarrow> string \<Rightarrow> string \<Rightarrow> thrown + unit"
  toLocaleDateString :: "event list \<Rightarrow> string \<Rightarrow> thrown + string"
  completes_next :: "event list \<Rightarrow> nat list \<Rightarrow> nat"

text \<open>The state outside the history: the lines written by \<^verbatim>\<open>console.log\<close>, and the events.\<close>

record world =
  console :: "string list"
  network :: "event list"

definition console_log :: "string \<Rightarrow> world \<Rightarrow> world" where
  "console_log line w = w\<lparr>console := console w @ [line]\<rparr>"

definition record_event :: "event \<Rightarrow> world \<Rightarrow> world" where
  "record_event ev w = w\<lparr>network := network w @ [ev]\<rparr>"

text \<open>\<^verbatim>\<open>error instanceof Error ? error.message : String(error)\<close>.\<close>

definition error_message :: "thrown \<Rightarrow> string" where
  "error_message error = (case error of JsError msg \<Rightarrow> msg | NonError v \<Rightarrow> String_of v)"

subsection \<open>Tool executor\<close>

text \<open>
  \<^verbatim>\<open>executeTool\<close> is an \<^verbatim>\<open>async\<close> function with one \<^verbatim>\<open>await\<close> on each path that reaches a
  collaborator. It is modelled in two halves: the code that runs before the \<^verbatim>\<open>await\<close>,
  which either returns, throws, or issues a request and suspends; and the code that
  runs when the request has settled.
\<close>

datatype step = Return string | Throw thrown | Await request

text \<open>
  The three fetch cases have the same text but for the fetcher they call; \<open>fetcher\<close> is
  that call.
\<close>

definition fetch_case ::
  "(jsval \<Rightarrow> jsval \<Rightarrow> jsval \<Rightarrow> int \<Rightarrow> request) \<Rightarrow> (string \<times> jsval) list \<Rightarrow> ToolContext \<Rightarrow> step" where
  "fetch_case fetcher input ctx =
     (let owner = field input ''owner''; repo = field input ''repo''; username = field input ''username''
      in case validateRepo owner repo ctx of
           Inl e \<Rightarrow> Throw e
         | Inr (Some repoErr) \<Rightarrow> Return (JSON_stringify (error_object repoErr))
         | Inr None \<Rightarrow>
             (case validateMember username ctx of
                Inl e \<Rightarrow> Throw e
              | Inr (Some memberErr) \<Rightarrow> Return (JSON_stringify (error_object memberErr))
              | Inr None \<Rightarrow> Await (fetcher owner repo username (since ctx))))"

text \<open>
  A method of \<^verbatim>\<open>Array.prototype\<close> called on a value cast to an array: on anything else
  (not \<^verbatim>\<open>null\<close> or \<^verbatim>\<open>undefined\<close>) the method is missing.
\<close>

definition array_method :: "string \<Rightarrow> string \<Rightarrow> jsval \<Rightarrow> thrown + jsval list" where
  "array_method what name v = (case v of JArr xs \<Rightarrow> Inr xs | _ \<Rightarrow> Inl (not_a_function what name))"

text \<open>\<^verbatim>\<open>e.username.toLowerCase()\<close>.\<close>

definition entry_username_lower :: "jsval \<Rightarrow> thrown + string" where
  "entry_username_lower e =
     (case get_prop e ''username'' of
        Inl x \<Rightarrow> Inl x
      | Inr u \<Rightarrow> call_toLowerCase ''e.username'' u)"

text \<open>
  \<^verbatim>\<open>standup_notes.filter((e) => !members.some(...)).map((e) => e.username)\<close>
\<close>

definition invalidUsers :: "string list \<Rightarrow> jsval \<Rightarrow> thrown + jsval list" where
  "invalidUsers members standup_notes =
     (case array_method ''standup_notes'' ''filter'' standup_notes of
        Inl x \<Rightarrow> Inl x
      | Inr entries \<Rightarrow>
          (case try_filter (\<lambda>e. case some_member (entry_username_lower e) members of
                                   Inl x \<Rightarrow> Inl x
                                 | Inr found \<Rightarrow> Inr (\<not> found)) entries of
             Inl x \<Rightarrow> Inl x
           | Inr bad \<Rightarrow> try_map (\<lambda>e. get_prop e ''username'') bad))"

text \<open>The object literal built for one entry of \<^verbatim>\<open>notes\<close>.\<close>

definition note_of :: "jsval \<Rightarrow> thrown + jsval" where
  "note_of entry =
     (case get_prop entry ''username'' of Inl x \<Rightarrow> Inl x | Inr u \<Rightarrow>
      (case get_prop entry ''yesterday'' of Inl x \<Rightarrow> Inl x | Inr y \<Rightarrow>
      (case get_prop entry ''today'' of Inl x \<Rightarrow> Inl x | Inr t \<Rightarrow>
      (case get_prop entry ''blockers'' of Inl x \<Rightarrow> Inl x | Inr b \<Rightarrow>
         Inr (JObj [(''username'', u), (''yesterday'', y), (''today'', t), (''blockers'', b),
                    (''rawSummary'', JStr [])])))))"

definition standup_title :: string where
  "standup_title = [CHR 0xF0, CHR 0x9F, CHR 0x8C, CHR 0x85] @ '' Daily Standup''"

text \<open>
  The end of the posting case, after both checks: the date label, the \<^verbatim>\<open>notes\<close>, and the
  call that is awaited.
\<close>

definition post_send :: "env \<Rightarrow> event list \<Rightarrow> jsval \<Rightarrow> ToolContext \<Rightarrow> step" where
  "post_send ev log standup_notes ctx =
     (case toLocaleDateString ev log (timezone ctx) of
        Inl x \<Rightarrow> Throw x
      | Inr dateLabel \<Rightarrow>
          (case array_method ''standup_notes'' ''map'' standup_notes of
             Inl x \<Rightarrow> Throw x
           | Inr entries \<Rightarrow>
               (case try_map note_of entries of
                  Inl x \<Rightarrow> Throw x
                | Inr notes \<Rightarrow>
                    Await (PostStandupToSlack (slackToken ctx) (slackChannelId ctx) notes
                             standup_title dateLabel))))"

definition post_case :: "env \<Rightarrow> event list \<Rightarrow> (string \<times> jsval) list \<Rightarrow> ToolContext \<Rightarrow> step" where
  "post_case ev log input ctx =
     (let standup_notes = field input ''standup_notes''
      in if \<not> truthy standup_notes \<or> get_prop standup_notes ''length'' = Inr (JNum 0)
         then Return (JSON_stringify (error_object ''No standup notes provided. Include at least one team member.''))
         else
           (case allowedMembers ctx of
              None \<Rightarrow> post_send ev log standup_notes ctx
            | Some members \<Rightarrow>
                (case invalidUsers members standup_notes of
                   Inl x \<Rightarrow> Throw x
                 | Inr (u # us) \<Rightarrow>
                     Return (JSON_stringify (error_object
                       (''Access denied: standup includes non-team members: ''
                        @ join_vals '', '' (u # us) @ ''. Allowed: '' @ join '', '' members)))
                 | Inr [] \<Rightarrow> post_send ev log standup_notes ctx)))"

text \<open>The part of \<^verbatim>\<open>executeTool\<close> that runs before its \<^verbatim>\<open>await\<close>.\<close>

definition executeTool_sync ::
  "env \<Rightarrow> event list \<Rightarrow> string \<Rightarrow> (string \<times> jsval) list \<Rightarrow> ToolContext \<Rightarrow> step" where
  "executeTool_sync ev log name input ctx =
     (if name = ''fetch_commits'' then fetch_case FetchCommitsByUser input ctx
      else if name = ''fetch_pull_requests'' then fetch_case FetchPRsByUser input ctx
      else if name = ''fetch_issues'' then fetch_case FetchIssueActivityByUser input ctx
      else if name = ''post_standup_to_slack'' then post_case ev log input ctx
      else Return (JSON_stringify (error_object (''Unknown tool: '' @ name))))"

text \<open>The \<^verbatim>\<open>try\<close>/\<^verbatim>\<open>catch\<close> around a fetcher: the data pretty-printed, or the normalised error.\<close>

definition fetched :: "thrown + jsval list \<Rightarrow> string" where
  "fetched outcome =
     (case outcome of
        Inr items \<Rightarrow> JSON_stringify_2 (JArr items)
      | Inl error \<Rightarrow> JSON_stringify (error_object (formatGitHubError error)))"

text \<open>The \<^verbatim>\<open>try\<close>/\<^verbatim>\<open>catch\<close> around the posting call.\<close>

definition posted :: "jsval list \<Rightarrow> thrown + unit \<Rightarrow> string" where
  "posted notes outcome =
     (case outcome of
        Inr u \<Rightarrow> ''Standup posted to Slack for '' @ decimal (length notes) @ '' team member(s).''
      | Inl error \<Rightarrow>
          (let msg = error_message error
           in if str_includes msg ''invalid_auth'' \<or> str_includes msg ''not_authed''
              then JSON_stringify (error_object ''Slack authentication failed. Check your SLACK_USER_TOKEN.'')
              else if str_includes msg ''channel_not_found''
              then JSON_stringify (error_object ''Slack channel not found. Check your SLACK_CHANNEL_ID.'')
              else JSON_stringify (error_object (''Slack posting failed: '' @ msg))))"

text \<open>
  The part of \<^verbatim>\<open>executeTool\<close> that runs when the awaited request settles; \<open>log\<close> is what
  had happened by then. It always returns.
\<close>

fun executeTool_settle :: "env \<Rightarrow> event list \<Rightarrow> request \<Rightarrow> string" where
  "executeTool_settle ev log (FetchCommitsByUser owner repo username s) =
     fetched (fetchCommitsByUser ev log owner repo username s)"
| "executeTool_settle ev log (FetchPRsByUser owner repo username s) =
     fetched (fetchPRsByUser ev log owner repo username s)"
| "executeTool_settle ev log (FetchIssueActivityByUser owner repo username s) =
     fetched (fetchIssueActivityByUser ev log owner repo username s)"
| "executeTool_settle ev log (PostStandupToSlack token channel notes title dateLabel) =
     posted notes (postStandupToSlack ev log token channel notes title dateLabel)"


section \<open>loop.ts: the conversation driver and the two session modes\<close>

definition MAX_ITERATIONS :: nat where
  "MAX_ITERATIONS = 20"

subsection \<open>Console lines\<close>

definition cross_mark :: string where
  "cross_mark = [CHR 0xE2, CHR 0x9D, CHR 0x8C]"

definition iteration_line :: "nat \<Rightarrow> string" where
  "iteration_line n =
     [CHR 0xE2, CHR 0x94, CHR 0x80, CHR 0xE2, CHR 0x94, CHR 0x80] @ '' Iteration '' @ decimal n @ '' ''
     @ [CHR 0xE2, CHR 0x94, CHR 0x80, CHR 0xE2, CHR 0x94, CHR 0x80]"

text \<open>The line the \<^verbatim>\<open>catch\<close> around the inference call prints, chosen by the message.\<close>

definition api_failure_line :: "string \<Rightarrow> string" where
  "api_failure_line msg =
     (if str_includes msg ''401'' \<or> str_includes msg ''authentication''
      then ''  '' @ cross_mark @ '' Anthropic API authentication failed. Check your ANTHROPIC_API_KEY.''
      else if str_includes msg ''429'' \<or> str_includes msg ''rate''
      then ''  '' @ cross_mark @ '' Anthropic API rate limit hit. Please wait a moment and try again.''
      else if str_includes msg ''overloaded'' \<or> str_includes msg ''529''
      then ''  '' @ cross_mark @ '' Anthropic API is overloaded. Please try again in a few seconds.''
      else ''  '' @ cross_mark @ '' API error: '' @ msg)"

definition thought_line :: "string \<Rightarrow> string" where
  "thought_line t = ''  '' @ [CHR 0xF0, CHR 0x9F, CHR 0x92, CHR 0xAD] @ '' '' @ t"

definition tool_line :: "string \<Rightarrow> string \<Rightarrow> string" where
  "tool_line name summary = ''  '' @ [CHR 0xF0, CHR 0x9F, CHR 0x94, CHR 0xA7] @ '' '' @ name @ ''('' @ summary @ '')''"

definition tool_error_line :: "string \<Rightarrow> string" where
  "tool_error_line errMsg = ''  '' @ cross_mark @ '' Tool error: '' @ errMsg"

definition finished_line :: "nat \<Rightarrow> string" where
  "finished_line iteration =
     [CHR 0x0A] @ [CHR 0xE2, CHR 0x9C, CHR 0x85] @ '' Agent finished ('' @ decimal iteration
     @ '' iteration(s))'' @ [CHR 0x0A]"

definition max_iterations_line :: string where
  "max_iterations_line =
     [CHR 0x0A] @ [CHR 0xE2, CHR 0x9A, CHR 0xA0, CHR 0xEF, CHR 0xB8, CHR 0x8F] @ ''  Agent hit max iterations (''
     @ decimal MAX_ITERATIONS @ ''). Stopping.'' @ [CHR 0x0A]"


definition summarizeInput :: "(string \<times> jsval) list \<Rightarrow> string" where
  "summarizeInput input =
     join '', ''
       ((if truthy (field input ''owner'')
         then [String_of (field input ''owner'') @ ''/'' @ String_of (field input ''repo'')] else [])
        @ (if truthy (field input ''username'') then [String_of (field input ''username'')] else [])
        @ (if truthy (field input ''standup_notes'')
           then [(case get_prop (field input ''standup_notes'') ''length'' of
                    Inr n \<Rightarrow> String_of n | Inl e \<Rightarrow> []) @ '' member(s)'']
           else []))"

subsection \<open>One turn\<close>

text \<open>The loop over \<^verbatim>\<open>response.content\<close> that prints the text blocks.\<close>

fun log_text_blocks :: "block list \<Rightarrow> world \<Rightarrow> world" where
  "log_text_blocks [] w = w"
| "log_text_blocks (Text t # bs) w =
     log_text_blocks bs (if trim t \<noteq> [] then console_log (thought_line (trim t)) w else w)"
| "log_text_blocks (b # bs) w = log_text_blocks bs w"

text \<open>\<^verbatim>\<open>response.content.filter((block) => block.type === "tool_use")\<close>\<close>

fun toolUses_of :: "block list \<Rightarrow> ToolUseBlock list" where
  "toolUses_of [] = []"
| "toolUses_of (ToolUse u # bs) = u # toolUses_of bs"
| "toolUses_of (b # bs) = toolUses_of bs"

text \<open>
  \<^verbatim>\<open>Promise.all(toolUses.map(async (toolUse) => ...))\<close> runs in three stages.

  First, \<^verbatim>\<open>map\<close> calls the callback on each tool call in order; each callback runs up to
  its \<^verbatim>\<open>await\<close>: it prints the tool line and runs \<^verbatim>\<open>executeTool\<close> up to the point where
  that one returns, throws or has issued its request.
\<close>

fun start_tools :: "env \<Rightarrow> ToolContext \<Rightarrow> ToolUseBlock list \<Rightarrow> world \<Rightarrow> (ToolUseBlock \<times> step) list \<times> world" where
  "start_tools ev ctx [] w = ([], w)"
| "start_tools ev ctx (toolUse # rest) w =
     (let w1 = console_log (tool_line (tool_name toolUse) (summarizeInput (tool_input toolUse))) w;
          st = executeTool_sync ev (network w1) (tool_name toolUse) (tool_input toolUse) ctx;
          w2 = (case st of Await r \<Rightarrow> record_event (Issued r) w1 | _ \<Rightarrow> w1);
          (started, w3) = start_tools ev ctx rest w2
      in ((toolUse, st) # started, w3))"

text \<open>
  Second, the callbacks whose \<^verbatim>\<open>executeTool\<close> has already returned or thrown continue,
  in order: a returned string becomes a result block; a thrown value is caught, printed
  and becomes a result block with \<^verbatim>\<open>is_error: true\<close>. The others stay in flight.
\<close>

datatype slot = Done ToolResultBlockParam | Waiting string request

fun resume_settled :: "(ToolUseBlock \<times> step) list \<Rightarrow> world \<Rightarrow> slot list \<times> world" where
  "resume_settled [] w = ([], w)"
| "resume_settled ((toolUse, Return result) # rest) w =
     (let (slots, w1) = resume_settled rest w
      in (Done (ToolResultBlockParam (tool_id toolUse) result None) # slots, w1))"
| "resume_settled ((toolUse, Throw error) # rest) w =
     (let errMsg = error_message error;
          (slots, w1) = resume_settled rest (console_log (tool_error_line errMsg) w)
      in (Done (ToolResultBlockParam (tool_id toolUse) (JSON_stringify (error_object errMsg)) (Some True)) # slots, w1))"
| "resume_settled ((toolUse, Await r) # rest) w =
     (let (slots, w1) = resume_settled rest w
      in (Waiting (tool_id toolUse) r # slots, w1))"

text \<open>
  Third, the requests in flight settle one at a time, in the order the environment
  chooses; the callback of the one that settled finishes \<^verbatim>\<open>executeTool\<close> and puts its
  result block at its own index. \<^verbatim>\<open>Promise.all\<close> resolves when none is left.
\<close>

fun is_waiting :: "slot \<Rightarrow> bool" where
  "is_waiting (Waiting i r) = True"
| "is_waiting (Done b) = False"

definition in_flight :: "slot list \<Rightarrow> nat list" where
  "in_flight slots = filter (\<lambda>i. is_waiting (slots ! i)) [0..<length slots]"

definition settles_next :: "env \<Rightarrow> event list \<Rightarrow> nat list \<Rightarrow> nat" where
  "settles_next ev log pending = pending ! (completes_next ev log pending mod length pending)"

function await_all :: "env \<Rightarrow> slot list \<Rightarrow> world \<Rightarrow> slot list \<times> world" where
  "await_all ev slots w =
     (if in_flight slots = [] then (slots, w)
      else (case slots ! settles_next ev (network w) (in_flight slots) of
              Waiting tid r \<Rightarrow>
                await_all ev
                  (slots[settles_next ev (network w) (in_flight slots) :=
                           Done (ToolResultBlockParam tid (executeTool_settle ev (network w) r) None)])
                  (record_event (Settled r) w)
            | Done b \<Rightarrow> (slots, w)))"
  by pat_completeness auto
termination
proof (relation "measure (\<lambda>(ev, slots, w). length (in_flight slots))")
  show "wf (measure (\<lambda>(ev, slots, w). length (in_flight slots)))"
    by simp
next
  fix ev :: env and slots :: "slot list" and w :: world and tid r
  define i where "i = settles_next ev (network w) (in_flight slots)"
  define b where "b = Done (ToolResultBlockParam tid (executeTool_settle ev (network w) r) None)"
  assume nonempty: "in_flight slots \<noteq> []"
  have mem: "i \<in> set (in_flight slots)"
    unfolding i_def settles_next_def using nonempty by (intro nth_mem) simp
  have "filter (\<lambda>j. is_waiting (slots[i := b] ! j)) [0..<length slots]
          = filter (\<lambda>j. is_waiting (slots ! j) \<and> j \<noteq> i) [0..<length slots]"
    using mem by (intro filter_cong) (auto simp: nth_list_update b_def in_flight_def)
  then have eq: "in_flight (slots[i := b]) = filter (\<lambda>j. j \<noteq> i) (in_flight slots)"
    by (simp add: in_flight_def)
  have "length (in_flight (slots[i := b])) < length (in_flight slots)"
    unfolding eq using mem by (intro length_filter_less[where x = i]) auto
  then show "((ev, slots[i := b], record_event (Settled r) w), (ev, slots, w))
               \<in> measure (\<lambda>(ev, slots, w). length (in_flight slots))"
    by simp
qed

text \<open>The result blocks, in the order of their tool calls.\<close>

fun toolResults_of :: "slot list \<Rightarrow> ToolResultBlockParam list" where
  "toolResults_of [] = []"
| "toolResults_of (Done b # slots) = b # toolResults_of slots"
| "toolResults_of (Waiting tid r # slots) = toolResults_of slots"

text \<open>
  \<^verbatim>\<open>runAgentTurn\<close>: the flag it returns (\<open>True\<close> when the agent is done), the history and
  the world afterwards. \<open>iteration\<close> is the optional last parameter.
\<close>

definition runAgentTurn ::
  "env \<Rightarrow> MessageParam list \<Rightarrow> string \<Rightarrow> ToolContext \<Rightarrow> nat option \<Rightarrow> world
     \<Rightarrow> bool \<times> MessageParam list \<times> world" where
  "runAgentTurn ev messages systemPrompt ctx iteration w =
     (let w1 = (case iteration of Some n \<Rightarrow> console_log (iteration_line n) w | None \<Rightarrow> w);
          response = messages_create ev (network w1) systemPrompt messages;
          w2 = record_event (MessagesCreate systemPrompt messages) w1
      in case response of
           Inl error \<Rightarrow> (True, messages, console_log (api_failure_line (error_message error)) w2)
         | Inr response_content \<Rightarrow>
             (let messages1 = messages @ [MessageParam Assistant (Blocks response_content)];
                  w3 = log_text_blocks response_content w2;
                  toolUses = toolUses_of response_content
              in if length toolUses = 0 then (True, messages1, w3)
                 else
                   (let (started, w4) = start_tools ev ctx toolUses w3;
                        (slots, w5) = resume_settled started w4;
                        (settled, w6) = await_all ev slots w5;
                        toolResults = toolResults_of settled
                    in (False, messages1 @ [MessageParam User (Blocks (map ToolResult toolResults))], w6))))"

subsection \<open>Autonomous mode\<close>

text \<open>
  The \<^verbatim>\<open>for\<close> loop of \<^verbatim>\<open>runAgentLoop\<close>, entered with the loop variable at \<open>iteration\<close>.
\<close>

function agent_loop ::
  "env \<Rightarrow> string \<Rightarrow> ToolContext \<Rightarrow> nat \<Rightarrow> MessageParam list \<Rightarrow> world \<Rightarrow> MessageParam list \<times> world" where
  "agent_loop ev systemPrompt ctx iteration messages w =
     (if iteration \<le> MAX_ITERATIONS
      then (case runAgentTurn ev messages systemPrompt ctx (Some iteration) w of
              (done, messages1, w1) \<Rightarrow>
                if done then (messages1, console_log (finished_line iteration) w1)
                else agent_loop ev systemPrompt ctx (iteration + 1) messages1
                       (if iteration = MAX_ITERATIONS then console_log max_iterations_line w1 else w1))
      else (messages, w))"
  by pat_completeness auto
termination
  by (relation "measure (\<lambda>(ev, systemPrompt, ctx, iteration, messages, w). MAX_ITERATIONS + 1 - iteration)") auto

text \<open>
  \<^verbatim>\<open>runAgentLoop\<close> from the point where the context, the task prompt and the banner are
  done (lines 179 to 187 build them from the configuration and the clock): \<open>w\<close> is the
  world at that point, \<open>AUTONOMOUS_SYSTEM_PROMPT\<close> the text of that constant.
\<close>

definition runAgentLoop ::
  "env \<Rightarrow> string \<Rightarrow> ToolContext \<Rightarrow> string \<Rightarrow> world \<Rightarrow> MessageParam list \<times> world" where
  "runAgentLoop ev AUTONOMOUS_SYSTEM_PROMPT ctx taskPrompt w =
     agent_loop ev AUTONOMOUS_SYSTEM_PROMPT ctx 1 [MessageParam User (Plain taskPrompt)] w"

subsection \<open>Interactive mode\<close>

text \<open>The inner \<^verbatim>\<open>for\<close> loop of the read-loop, entered with \<open>i\<close>.\<close>

function turns_for_line ::
  "env \<Rightarrow> string \<Rightarrow> ToolContext \<Rightarrow> nat \<Rightarrow> MessageParam list \<Rightarrow> world \<Rightarrow> MessageParam list \<times> world" where
  "turns_for_line ev systemPrompt ctx i messages w =
     (if i < MAX_ITERATIONS
      then (case runAgentTurn ev messages systemPrompt ctx None w of
              (done, messages1, w1) \<Rightarrow>
                if done then (messages1, w1)
                else turns_for_line ev systemPrompt ctx (i + 1) messages1 w1)
      else (messages, w))"
  by pat_completeness auto
termination
  by (relation "measure (\<lambda>(ev, systemPrompt, ctx, i, messages, w). MAX_ITERATIONS - i)") auto



section \<open>Notions used in the statements\<close>

subsection \<open>Counting turns\<close>

text \<open>
  Every turn makes exactly one inference call (\<open>runAgentTurn_one_call\<close> below), so the
  inference calls in the event list count the turns.
\<close>

fun is_inference :: "event \<Rightarrow> bool" where
  "is_inference (MessagesCreate systemPrompt messages) = True"
| "is_inference (Issued r) = False"
| "is_inference (Settled r) = False"

definition inference_calls :: "world \<Rightarrow> nat" where
  "inference_calls w = length (filter is_inference (network w))"

subsection \<open>JSON texts\<close>

text \<open>
  The grammar of JSON (ECMA-404, RFC 8259) on byte strings: white space, numbers,
  strings with their escapes, arrays and objects. An array is a bracketed,
  comma-separated list of elements, each a value with optional white space around it;
  an object is the same with members \<^verbatim>\<open>string : value\<close>. A JSON text is one value with
  optional white space around it.
\<close>

definition json_ws :: "string \<Rightarrow> bool" where
  "json_ws s = (set s \<subseteq> set [CHR 0x20, CHR 0x0A, CHR 0x0D, CHR 0x09])"










section \<open>Sample values\<close>

text \<open>
  A configured session, as \<^verbatim>\<open>buildToolContext\<close> builds it: one repository and two team
  members.
\<close>

definition team_ctx :: ToolContext where
  "team_ctx = \<lparr>since = 0, slackToken = ''xoxp-token'', slackChannelId = ''C0123'', timezone = ''Asia/Kolkata'',
     allowedRepos = Some [RepoRef ''acme'' ''web''], allowedMembers = Some [''alice'', ''bob'']\<rparr>"

text \<open>
  An environment in which nothing fails and nothing is found, and the world before
  anything has happened.
\<close>

definition quiet_env :: env where
  "quiet_env =
     \<lparr>messages_create = (\<lambda>log systemPrompt messages. Inr [Text ''Nothing to do.'']),
      fetchCommitsByUser = (\<lambda>log owner repo username s. Inr []),
      fetchPRsByUser = (\<lambda>log owner repo username s. Inr []),
      fetchIssueActivityByUser = (\<lambda>log owner repo username s. Inr []),
      postStandupToSlack = (\<lambda>log token channel notes title dateLabel. Inr ()),
      toLocaleDateString = (\<lambda>log tz. Inr ''Monday 2 November 2026''),
      completes_next = (\<lambda>log pending. 0)\<rparr>"

definition empty_world :: world where
  "empty_world = \<lparr>console = [], network = []\<rparr>"




text \<open>
  A provider that rejects the API key on every call, and a planner that asks for a tool
  on every call.
\<close>

definition auth_failing_env :: env where
  "auth_failing_env = quiet_env\<lparr>messages_create :=
     (\<lambda>log systemPrompt messages. Inl (JsError ''401 authentication_error: invalid x-api-key''))\<rparr>"

definition insistent_env :: env where
  "insistent_env = quiet_env\<lparr>messages_create :=
     (\<lambda>log systemPrompt messages.
        Inr [ToolUse (ToolUseBlock ''toolu_01'' ''fetch_commits''
               [(''owner'', JStr ''acme''), (''repo'', JStr ''web''), (''username'', JStr ''alice'')])])\<rparr>"


section \<open>Properties of the access guard and the error normaliser\<close>












section \<open>Properties of the tool executor\<close>





















section \<open>Properties of a turn\<close>

declare await_all.simps [simp del] agent_loop.simps [simp del] turns_for_line.simps [simp del]

lemma inference_calls_console_log [simp]: "inference_calls (console_log line w) = inference_calls w"
  by (simp add: inference_calls_def console_log_def)

lemma inference_calls_record_event [simp]:
  "inference_calls (record_event e w) = inference_calls w + (if is_inference e then 1 else 0)"
  by (simp add: inference_calls_def record_event_def)

subsection \<open>The three stages of the concurrent tool execution\<close>

lemma start_tools_Cons:
  "start_tools ev ctx (toolUse # rest) w =
     (let w1 = console_log (tool_line (tool_name toolUse) (summarizeInput (tool_input toolUse))) w;
          st = executeTool_sync ev (network w1) (tool_name toolUse) (tool_input toolUse) ctx;
          w2 = (case st of Await r \<Rightarrow> record_event (Issued r) w1 | _ \<Rightarrow> w1)
      in ((toolUse, st) # fst (start_tools ev ctx rest w2), snd (start_tools ev ctx rest w2)))"
  by (simp add: Let_def split: prod.splits)

lemma start_tools_fst: "map fst (fst (start_tools ev ctx toolUses w)) = toolUses"
  by (induction toolUses arbitrary: w) (simp_all add: start_tools_Cons Let_def del: start_tools.simps(2))

lemma start_tools_length: "length (fst (start_tools ev ctx toolUses w)) = length toolUses"
  using start_tools_fst[of ev ctx toolUses w] by (metis length_map)

lemma start_tools_inference:
  "inference_calls (snd (start_tools ev ctx toolUses w)) = inference_calls w"
  by (induction toolUses arbitrary: w)
     (simp_all add: start_tools_Cons Let_def del: start_tools.simps(2) split: step.splits)

lemma start_tools_nth:
  "i < length toolUses \<Longrightarrow>
   \<exists>log. fst (start_tools ev ctx toolUses w) ! i =
           (toolUses ! i, executeTool_sync ev log (tool_name (toolUses ! i)) (tool_input (toolUses ! i)) ctx)"
proof (induction toolUses arbitrary: w i)
  case Nil
  then show ?case by simp
next
  case (Cons toolUse rest)
  show ?case
  proof (cases i)
    case 0
    then show ?thesis
      by (auto simp: start_tools_Cons Let_def simp del: start_tools.simps(2))
  next
    case (Suc j)
    with Cons.prems have "j < length rest" by simp
    from Cons.IH[OF this] Suc show ?thesis
      by (simp add: start_tools_Cons Let_def del: start_tools.simps(2))
  qed
qed

lemma resume_settled_Cons:
  "resume_settled ((toolUse, st) # rest) w =
     (let w1 = (case st of Throw error \<Rightarrow> console_log (tool_error_line (error_message error)) w | _ \<Rightarrow> w)
      in ((case st of
             Return result \<Rightarrow> Done (ToolResultBlockParam (tool_id toolUse) result None)
           | Throw error \<Rightarrow>
               Done (ToolResultBlockParam (tool_id toolUse)
                       (JSON_stringify (error_object (error_message error))) (Some True))
           | Await r \<Rightarrow> Waiting (tool_id toolUse) r) # fst (resume_settled rest w1),
          snd (resume_settled rest w1)))"
  by (cases st) (simp_all add: Let_def split: prod.splits)

lemma resume_settled_length: "length (fst (resume_settled started w)) = length started"
proof (induction started arbitrary: w)
  case Nil
  then show ?case by simp
next
  case (Cons a started)
  then show ?case by (cases a) (simp add: resume_settled_Cons Let_def del: resume_settled.simps)
qed

lemma resume_settled_network: "network (snd (resume_settled started w)) = network w"
proof (induction started arbitrary: w)
  case Nil
  then show ?case by simp
next
  case (Cons a started)
  then show ?case
    by (cases a) (simp add: resume_settled_Cons Let_def console_log_def del: resume_settled.simps split: step.splits)
qed

lemma resume_settled_inference: "inference_calls (snd (resume_settled started w)) = inference_calls w"
  by (simp add: inference_calls_def resume_settled_network)

lemma resume_settled_nth:
  "i < length started \<Longrightarrow>
   fst (resume_settled started w) ! i =
     (case snd (started ! i) of
        Return result \<Rightarrow> Done (ToolResultBlockParam (tool_id (fst (started ! i))) result None)
      | Throw error \<Rightarrow>
          Done (ToolResultBlockParam (tool_id (fst (started ! i)))
                  (JSON_stringify (error_object (error_message error))) (Some True))
      | Await r \<Rightarrow> Waiting (tool_id (fst (started ! i))) r)"
proof (induction started arbitrary: w i)
  case Nil
  then show ?case by simp
next
  case (Cons a started)
  obtain toolUse st where a: "a = (toolUse, st)" by (cases a)
  show ?case
  proof (cases i)
    case 0
    show ?thesis
      unfolding 0 a by (cases st) (simp_all add: resume_settled_Cons Let_def del: resume_settled.simps)
  next
    case (Suc j)
    with Cons.prems have "j < length started" by simp
    from Cons.IH[OF this] show ?thesis
      unfolding Suc a by (simp add: resume_settled_Cons Let_def del: resume_settled.simps cong: step.case_cong)
  qed
qed

lemma settles_next_in_flight:
  "in_flight slots \<noteq> [] \<Longrightarrow> settles_next ev log (in_flight slots) \<in> set (in_flight slots)"
  unfolding settles_next_def by (intro nth_mem) simp

lemma in_flight_mem: "i \<in> set (in_flight slots) \<longleftrightarrow> i < length slots \<and> is_waiting (slots ! i)"
  by (auto simp: in_flight_def)

lemma await_all_length: "length (fst (await_all ev slots w)) = length slots"
proof (induction ev slots w rule: await_all.induct)
  case (1 ev slots w)
  show ?case
    using "1.IH" by (subst await_all.simps) (auto split: slot.splits)
qed

lemma await_all_none_in_flight: "in_flight (fst (await_all ev slots w)) = []"
proof (induction ev slots w rule: await_all.induct)
  case (1 ev slots w)
  show ?case
  proof (cases "in_flight slots = []")
    case True
    then show ?thesis by (subst await_all.simps) simp
  next
    case False
    let ?i = "settles_next ev (network w) (in_flight slots)"
    from settles_next_in_flight[OF False] have "is_waiting (slots ! ?i)"
      by (simp add: in_flight_mem)
    then obtain tid r where "slots ! ?i = Waiting tid r"
      by (cases "slots ! ?i") auto
    with False "1.IH"[OF False this] show ?thesis
      by (subst await_all.simps) simp
  qed
qed

lemma await_all_inference: "inference_calls (snd (await_all ev slots w)) = inference_calls w"
proof (induction ev slots w rule: await_all.induct)
  case (1 ev slots w)
  show ?case
    using "1.IH" by (subst await_all.simps) (auto split: slot.splits)
qed

text \<open>What each position holds when all have settled.\<close>

lemma await_all_nth:
  "i < length slots \<Longrightarrow>
   (case slots ! i of
      Done b \<Rightarrow> fst (await_all ev slots w) ! i = Done b
    | Waiting tid r \<Rightarrow>
        (\<exists>log. fst (await_all ev slots w) ! i =
                 Done (ToolResultBlockParam tid (executeTool_settle ev log r) None)))"
proof (induction ev slots w rule: await_all.induct)
  case (1 ev slots w)
  show ?case
  proof (cases "in_flight slots = []")
    case True
    then have "\<not> is_waiting (slots ! i)"
      using "1.prems" in_flight_mem[of i slots] by auto
    with True show ?thesis
      by (subst await_all.simps) (auto split: slot.splits)
  next
    case False
    let ?j = "settles_next ev (network w) (in_flight slots)"
    from settles_next_in_flight[OF False] have j: "?j < length slots" "is_waiting (slots ! ?j)"
      by (simp_all add: in_flight_mem)
    then obtain tid r where w: "slots ! ?j = Waiting tid r"
      by (cases "slots ! ?j") auto
    let ?b = "Done (ToolResultBlockParam tid (executeTool_settle ev (network w) r) None)"
    have unfold: "await_all ev slots w = await_all ev (slots[?j := ?b]) (record_event (Settled r) w)"
      using False w by (subst await_all.simps) simp
    have IH: "case slots[?j := ?b] ! i of
                Done b \<Rightarrow> fst (await_all ev (slots[?j := ?b]) (record_event (Settled r) w)) ! i = Done b
              | Waiting tid r' \<Rightarrow>
                  (\<exists>log. fst (await_all ev (slots[?j := ?b]) (record_event (Settled r) w)) ! i =
                           Done (ToolResultBlockParam tid (executeTool_settle ev log r') None))"
      using "1.IH"[OF False w] "1.prems" by simp
    show ?thesis
    proof (cases "i = ?j")
      case True
      with IH j w show ?thesis
        unfolding unfold by auto
    next
      case False
      with IH "1.prems" show ?thesis
        unfolding unfold by (simp add: nth_list_update)
    qed
  qed
qed

lemma toolResults_of_settled:
  "in_flight slots = [] \<Longrightarrow> map Done (toolResults_of slots) = slots"
proof (induction slots rule: toolResults_of.induct)
  case 1
  then show ?case by simp
next
  case (2 b slots)
  have "in_flight slots = []"
  proof (rule ccontr)
    assume "in_flight slots \<noteq> []"
    then obtain i where "i \<in> set (in_flight slots)" by (cases "in_flight slots") auto
    then have "Suc i \<in> set (in_flight (Done b # slots))"
      by (simp add: in_flight_mem)
    with 2 show False by simp
  qed
  with 2 show ?case by simp
next
  case (3 tid r slots)
  have "0 \<in> set (in_flight (Waiting tid r # slots))"
    by (simp add: in_flight_mem)
  with 3 show ?case by simp
qed


lemma network_log_text_blocks: "network (log_text_blocks bs w) = network w"
  by (induction bs w rule: log_text_blocks.induct) (simp_all add: console_log_def)

lemma inference_calls_log_text_blocks [simp]: "inference_calls (log_text_blocks bs w) = inference_calls w"
  by (simp add: inference_calls_def network_log_text_blocks)

lemma network_iteration_header:
  "network (case iteration of Some n \<Rightarrow> console_log (iteration_line n) w | None \<Rightarrow> w) = network w"
  by (cases iteration) (simp_all add: console_log_def)

text \<open>The turn in full, for a response that holds tool calls.\<close>

lemma runAgentTurn_tool_results:
  assumes create: "messages_create ev (network w) systemPrompt messages = Inr response_content"
    and calls: "toolUses_of response_content \<noteq> []"
  shows "\<exists>results w'.
           runAgentTurn ev messages systemPrompt ctx iteration w =
             (False,
              messages @ [MessageParam Assistant (Blocks response_content),
                          MessageParam User (Blocks (map ToolResult results))],
              w')
           \<and> length results = length (toolUses_of response_content)
           \<and> inference_calls w' = inference_calls w + 1
           \<and> (\<forall>i < length (toolUses_of response_content).
                 \<exists>log. case executeTool_sync ev log (tool_name (toolUses_of response_content ! i))
                               (tool_input (toolUses_of response_content ! i)) ctx of
                   Return result \<Rightarrow>
                     results ! i = ToolResultBlockParam (tool_id (toolUses_of response_content ! i)) result None
                 | Throw error \<Rightarrow>
                     results ! i = ToolResultBlockParam (tool_id (toolUses_of response_content ! i))
                                     (JSON_stringify (error_object (error_message error))) (Some True)
                 | Await r \<Rightarrow>
                     (\<exists>log'. results ! i = ToolResultBlockParam (tool_id (toolUses_of response_content ! i))
                                              (executeTool_settle ev log' r) None))"
proof -
  define toolUses where "toolUses = toolUses_of response_content"
  define w1 where "w1 = (case iteration of Some n \<Rightarrow> console_log (iteration_line n) w | None \<Rightarrow> w)"
  define w3 where "w3 = log_text_blocks response_content (record_event (MessagesCreate systemPrompt messages) w1)"
  define started where "started = fst (start_tools ev ctx toolUses w3)"
  define w4 where "w4 = snd (start_tools ev ctx toolUses w3)"
  define slots where "slots = fst (resume_settled started w4)"
  define w5 where "w5 = snd (resume_settled started w4)"
  define settled where "settled = fst (await_all ev slots w5)"
  define w6 where "w6 = snd (await_all ev slots w5)"
  define results where "results = toolResults_of settled"
  have net1: "network w1 = network w"
    unfolding w1_def by (rule network_iteration_header)
  have turn: "runAgentTurn ev messages systemPrompt ctx iteration w =
             (False,
              messages @ [MessageParam Assistant (Blocks response_content),
                          MessageParam User (Blocks (map ToolResult results))],
              w6)"
    using calls create
    unfolding runAgentTurn_def Let_def w1_def[symmetric] net1
    by (simp add: toolUses_def[symmetric] w3_def[symmetric] split_beta
          started_def[symmetric] w4_def[symmetric] slots_def[symmetric] w5_def[symmetric]
          settled_def[symmetric] w6_def[symmetric] results_def[symmetric])
  have all_done: "map Done results = settled"
    unfolding results_def settled_def
    by (intro toolResults_of_settled await_all_none_in_flight)
  have len: "length settled = length toolUses"
    unfolding settled_def slots_def started_def
    by (simp add: await_all_length resume_settled_length start_tools_length)
  from all_done have len_results: "length results = length toolUses"
    using len by (metis length_map)
  have inf1: "inference_calls w1 = inference_calls w"
    by (simp add: inference_calls_def net1)
  have inf: "inference_calls w6 = inference_calls w + 1"
    unfolding w6_def w5_def w4_def w3_def
    by (simp add: await_all_inference resume_settled_inference start_tools_inference inf1)
  have each: "\<exists>log. case executeTool_sync ev log (tool_name (toolUses ! i)) (tool_input (toolUses ! i)) ctx of
                   Return result \<Rightarrow> results ! i = ToolResultBlockParam (tool_id (toolUses ! i)) result None
                 | Throw error \<Rightarrow>
                     results ! i = ToolResultBlockParam (tool_id (toolUses ! i))
                                     (JSON_stringify (error_object (error_message error))) (Some True)
                 | Await r \<Rightarrow>
                     (\<exists>log'. results ! i = ToolResultBlockParam (tool_id (toolUses ! i))
                                              (executeTool_settle ev log' r) None)"
    if i: "i < length toolUses" for i
  proof -
    from start_tools_nth[OF i, of ev ctx w3] obtain log where
      st: "started ! i = (toolUses ! i, executeTool_sync ev log (tool_name (toolUses ! i)) (tool_input (toolUses ! i)) ctx)"
      unfolding started_def by blast
    let ?st = "executeTool_sync ev log (tool_name (toolUses ! i)) (tool_input (toolUses ! i)) ctx"
    have i_started: "i < length started"
      unfolding started_def using i by (simp add: start_tools_length)
    have slot: "slots ! i =
        (case ?st of
           Return result \<Rightarrow> Done (ToolResultBlockParam (tool_id (toolUses ! i)) result None)
         | Throw error \<Rightarrow>
             Done (ToolResultBlockParam (tool_id (toolUses ! i))
                     (JSON_stringify (error_object (error_message error))) (Some True))
         | Await r \<Rightarrow> Waiting (tool_id (toolUses ! i)) r)"
      unfolding slots_def using resume_settled_nth[OF i_started, of w4] by (simp add: st cong: step.case_cong)
    have i_slots: "i < length slots"
      unfolding slots_def using i_started by (simp add: resume_settled_length)
    have res: "settled ! i = Done (results ! i)"
      using all_done i len_results by (metis nth_map)
    note final = await_all_nth[OF i_slots, of ev w5, folded settled_def]
    have "case ?st of
                   Return result \<Rightarrow> results ! i = ToolResultBlockParam (tool_id (toolUses ! i)) result None
                 | Throw error \<Rightarrow>
                     results ! i = ToolResultBlockParam (tool_id (toolUses ! i))
                                     (JSON_stringify (error_object (error_message error))) (Some True)
                 | Await r \<Rightarrow>
                     (\<exists>log'. results ! i = ToolResultBlockParam (tool_id (toolUses ! i))
                                              (executeTool_settle ev log' r) None)"
      using final slot res by (cases ?st) auto
    then show ?thesis by blast
  qed
  from turn len_results inf each show ?thesis
    unfolding toolUses_def by blast
qed




section \<open>Properties of the session modes\<close>

lemma console_log_sel [simp]:
  "console (console_log line w) = console w @ [line]" "network (console_log line w) = network w"
  by (simp_all add: console_log_def)

lemma record_event_sel [simp]:
  "console (record_event e w) = console w" "network (record_event e w) = network w @ [e]"
  by (simp_all add: record_event_def)

lemma runAgentTurn_failed:
  assumes "messages_create ev (network w) systemPrompt messages = Inl error"
  shows "runAgentTurn ev messages systemPrompt ctx iteration w =
           (True, messages,
            console_log (api_failure_line (error_message error))
              (record_event (MessagesCreate systemPrompt messages)
                 (case iteration of Some n \<Rightarrow> console_log (iteration_line n) w | None \<Rightarrow> w)))"
  using assms unfolding runAgentTurn_def Let_def network_iteration_header by simp

lemma runAgentTurn_no_tools:
  assumes "messages_create ev (network w) systemPrompt messages = Inr response_content"
    and "toolUses_of response_content = []"
  shows "runAgentTurn ev messages systemPrompt ctx iteration w =
           (True, messages @ [MessageParam Assistant (Blocks response_content)],
            log_text_blocks response_content
              (record_event (MessagesCreate systemPrompt messages)
                 (case iteration of Some n \<Rightarrow> console_log (iteration_line n) w | None \<Rightarrow> w)))"
  using assms unfolding runAgentTurn_def Let_def network_iteration_header by simp

lemma inference_calls_iteration_header [simp]:
  "inference_calls (case iteration of Some n \<Rightarrow> console_log (iteration_line n) w | None \<Rightarrow> w) = inference_calls w"
  by (cases iteration) simp_all

text \<open>Every turn makes exactly one inference call, and only appends to the history.\<close>

lemma runAgentTurn_one_call:
  "inference_calls (snd (snd (runAgentTurn ev messages systemPrompt ctx iteration w))) = inference_calls w + 1"
proof (cases "messages_create ev (network w) systemPrompt messages")
  case (Inl error)
  then show ?thesis by (simp add: runAgentTurn_failed)
next
  case (Inr response_content)
  show ?thesis
  proof (cases "toolUses_of response_content = []")
    case True
    with Inr show ?thesis by (simp add: runAgentTurn_no_tools)
  next
    case False
    from runAgentTurn_tool_results[OF Inr False, of ctx iteration] show ?thesis by auto
  qed
qed


lemma runAgentTurn_continues:
  assumes "messages_create ev (network w) systemPrompt messages = Inr response_content"
    and "toolUses_of response_content \<noteq> []"
  shows "\<not> fst (runAgentTurn ev messages systemPrompt ctx iteration w)"
  using runAgentTurn_tool_results[OF assms, of ctx iteration] by auto

lemma agent_loop_finished:
  assumes "iteration \<le> MAX_ITERATIONS"
    and "runAgentTurn ev messages systemPrompt ctx (Some iteration) w = (True, messages1, w1)"
  shows "agent_loop ev systemPrompt ctx iteration messages w = (messages1, console_log (finished_line iteration) w1)"
  using assms by (subst agent_loop.simps) simp

lemma agent_loop_continue:
  assumes "iteration \<le> MAX_ITERATIONS"
    and "runAgentTurn ev messages systemPrompt ctx (Some iteration) w = (False, messages1, w1)"
  shows "agent_loop ev systemPrompt ctx iteration messages w =
           agent_loop ev systemPrompt ctx (iteration + 1) messages1
             (if iteration = MAX_ITERATIONS then console_log max_iterations_line w1 else w1)"
  using assms by (subst agent_loop.simps) simp

lemma agent_loop_exit:
  "\<not> iteration \<le> MAX_ITERATIONS \<Longrightarrow> agent_loop ev systemPrompt ctx iteration messages w = (messages, w)"
  by (subst agent_loop.simps) simp

lemma agent_loop_bound:
  "inference_calls (snd (agent_loop ev systemPrompt ctx iteration messages w))
     \<le> inference_calls w + (MAX_ITERATIONS + 1 - iteration)"
proof (induction ev systemPrompt ctx iteration messages w rule: agent_loop.induct)
  case (1 ev systemPrompt ctx iteration messages w)
  show ?case
  proof (cases "iteration \<le> MAX_ITERATIONS")
    case False
    then show ?thesis by (simp add: agent_loop_exit)
  next
    case True
    obtain d messages1 w1 where turn: "runAgentTurn ev messages systemPrompt ctx (Some iteration) w = (d, messages1, w1)"
      by (cases "runAgentTurn ev messages systemPrompt ctx (Some iteration) w") auto
    from runAgentTurn_one_call[of ev messages systemPrompt ctx "Some iteration" w] turn
    have one: "inference_calls w1 = inference_calls w + 1" by simp
    show ?thesis
    proof (cases d)
      case True
      with turn \<open>iteration \<le> MAX_ITERATIONS\<close> one show ?thesis
        by (simp add: agent_loop_finished)
    next
      case False
      from "1.IH"[OF \<open>iteration \<le> MAX_ITERATIONS\<close> turn[symmetric] refl False] one
        \<open>iteration \<le> MAX_ITERATIONS\<close>
      show ?thesis
        using turn False by (simp add: agent_loop_continue split: if_splits)
    qed
  qed
qed

lemma agent_loop_exhausted:
  "(\<forall>log sys msgs. \<exists>c. messages_create ev log sys msgs = Inr c \<and> toolUses_of c \<noteq> []) \<Longrightarrow>
   iteration \<le> MAX_ITERATIONS \<Longrightarrow>
   inference_calls (snd (agent_loop ev systemPrompt ctx iteration messages w))
     = inference_calls w + (MAX_ITERATIONS + 1 - iteration)
   \<and> last (console (snd (agent_loop ev systemPrompt ctx iteration messages w))) = max_iterations_line"
proof (induction ev systemPrompt ctx iteration messages w rule: agent_loop.induct)
  case (1 ev systemPrompt ctx iteration messages w)
  note always = "1.prems"(1) and le = "1.prems"(2)
  obtain d messages1 w1 where turn: "runAgentTurn ev messages systemPrompt ctx (Some iteration) w = (d, messages1, w1)"
    by (cases "runAgentTurn ev messages systemPrompt ctx (Some iteration) w") auto
  from always obtain c where
    c: "messages_create ev (network w) systemPrompt messages = Inr c" "toolUses_of c \<noteq> []"
    by blast
  from runAgentTurn_continues[OF c, of ctx "Some iteration"] turn have d: "\<not> d" by simp
  from runAgentTurn_one_call[of ev messages systemPrompt ctx "Some iteration" w] turn
  have one: "inference_calls w1 = inference_calls w + 1" by simp
  show ?case
  proof (cases "iteration = MAX_ITERATIONS")
    case True
    have "agent_loop ev systemPrompt ctx iteration messages w = (messages1, console_log max_iterations_line w1)"
      using turn d le True by (simp add: agent_loop_continue agent_loop_exit)
    with one True show ?thesis
      by simp
  next
    case False
    with le have lt: "iteration + 1 \<le> MAX_ITERATIONS" by simp
    from "1.IH"[OF le turn[symmetric] refl d always lt] turn d le False one
    show ?thesis
      by (simp add: agent_loop_continue)
  qed
qed


lemma turns_for_line_finished:
  assumes "i < MAX_ITERATIONS"
    and "runAgentTurn ev messages systemPrompt ctx None w = (True, messages1, w1)"
  shows "turns_for_line ev systemPrompt ctx i messages w = (messages1, w1)"
  using assms by (subst turns_for_line.simps) simp

text \<open>
  C4. When the inference call of a turn fails, with whatever was thrown, the turn
  returns \<open>True\<close> (finished) with the history unchanged, and the only event it adds is
  that one inference call. The autonomous loop entered at any iteration up to the
  maximum, and the interactive sub-loop entered at any index below it, then stop at
  once: afterwards the history is unchanged and exactly one inference call has been
  added, so the call is not retried and no further turn runs.
\<close>

theorem inference_failure_ends_task:
  assumes "messages_create ev (network w) systemPrompt messages = Inl error"
  shows "(\<exists>w'. runAgentTurn ev messages systemPrompt ctx iteration w = (True, messages, w')
              \<and> network w' = network w @ [MessagesCreate systemPrompt messages])
         \<and> (n \<le> MAX_ITERATIONS \<longrightarrow>
              fst (agent_loop ev systemPrompt ctx n messages w) = messages
              \<and> network (snd (agent_loop ev systemPrompt ctx n messages w))
                  = network w @ [MessagesCreate systemPrompt messages])
         \<and> (i < MAX_ITERATIONS \<longrightarrow>
              fst (turns_for_line ev systemPrompt ctx i messages w) = messages
              \<and> network (snd (turns_for_line ev systemPrompt ctx i messages w))
                  = network w @ [MessagesCreate systemPrompt messages])"
proof (intro conjI impI)
  note failed = runAgentTurn_failed[OF assms]
  show "\<exists>w'. runAgentTurn ev messages systemPrompt ctx iteration w = (True, messages, w')
              \<and> network w' = network w @ [MessagesCreate systemPrompt messages]"
    by (simp add: failed network_iteration_header)
  {
    assume n: "n \<le> MAX_ITERATIONS"
    note loop = agent_loop_finished[OF n failed[of ctx "Some n"]]
    show "fst (agent_loop ev systemPrompt ctx n messages w) = messages"
      by (simp add: loop)
    show "network (snd (agent_loop ev systemPrompt ctx n messages w))
            = network w @ [MessagesCreate systemPrompt messages]"
      by (simp add: loop)
  }
  {
    assume i: "i < MAX_ITERATIONS"
    note loop = turns_for_line_finished[OF i failed[of ctx None]]
    show "fst (turns_for_line ev systemPrompt ctx i messages w) = messages"
      by (simp add: loop)
    show "network (snd (turns_for_line ev systemPrompt ctx i messages w))
            = network w @ [MessagesCreate systemPrompt messages]"
      by (simp add: loop)
  }
qed

theorem inference_failure_ends_task_witness:
  "fst (runAgentLoop auth_failing_env ''system'' team_ctx ''task'' empty_world) = [MessageParam User (Plain ''task'')]
   \<and> network (snd (runAgentLoop auth_failing_env ''system'' team_ctx ''task'' empty_world))
       = [MessagesCreate ''system'' [MessageParam User (Plain ''task'')]]
   \<and> network (snd (turns_for_line auth_failing_env ''system'' team_ctx 0 [MessageParam User (Plain ''hello'')] empty_world))
       = [MessagesCreate ''system'' [MessageParam User (Plain ''hello'')]]"
proof -
  have failing: "messages_create auth_failing_env (network empty_world) ''system'' messages
                   = Inl (JsError ''401 authentication_error: invalid x-api-key'')" for messages
    by (simp add: auth_failing_env_def)
  show ?thesis
    using inference_failure_ends_task[OF failing, where n = 1 and messages = "[MessageParam User (Plain ''task'')]"
            and ctx = team_ctx]
          inference_failure_ends_task[OF failing, where i = 0 and messages = "[MessageParam User (Plain ''hello'')]"
            and ctx = team_ctx]
    by (simp add: runAgentLoop_def MAX_ITERATIONS_def empty_world_def)
qed

text \<open>
  C5. The autonomous session makes at most 20 inference calls, one per turn, for every
  environment; the loop is a total function. Entered at any iteration up to the
  maximum, it stops as soon as the turn reports finished, printing the finished line
  for that iteration; a turn that does not report finished leads to the next iteration
  when one is left, and at iteration 20 to the max-iterations warning and the end of
  the session. In particular a response without tool calls ends the session after
  exactly that turn (one more inference call, the response appended). With a planner
  that puts a tool call in every response, the session runs exactly 20 turns and the
  last line printed is the warning.
\<close>

theorem autonomous_session_bounded:
  "inference_calls (snd (runAgentLoop ev systemPrompt ctx taskPrompt w)) \<le> inference_calls w + 20
   \<and> (\<forall>iteration messages messages1 w1.
         iteration \<le> MAX_ITERATIONS
         \<and> runAgentTurn ev messages systemPrompt ctx (Some iteration) w = (True, messages1, w1) \<longrightarrow>
         agent_loop ev systemPrompt ctx iteration messages w
           = (messages1, console_log (finished_line iteration) w1))
   \<and> (\<forall>iteration messages messages1 w1.
         iteration < MAX_ITERATIONS
         \<and> runAgentTurn ev messages systemPrompt ctx (Some iteration) w = (False, messages1, w1) \<longrightarrow>
         agent_loop ev systemPrompt ctx iteration messages w
           = agent_loop ev systemPrompt ctx (iteration + 1) messages1 w1)
   \<and> (\<forall>messages messages1 w1.
         runAgentTurn ev messages systemPrompt ctx (Some MAX_ITERATIONS) w = (False, messages1, w1) \<longrightarrow>
         agent_loop ev systemPrompt ctx MAX_ITERATIONS messages w
           = (messages1, console_log max_iterations_line w1))
   \<and> (\<forall>iteration messages response_content.
         iteration \<le> MAX_ITERATIONS
         \<and> messages_create ev (network w) systemPrompt messages = Inr response_content
         \<and> toolUses_of response_content = [] \<longrightarrow>
         fst (agent_loop ev systemPrompt ctx iteration messages w)
           = messages @ [MessageParam Assistant (Blocks response_content)]
         \<and> inference_calls (snd (agent_loop ev systemPrompt ctx iteration messages w)) = inference_calls w + 1
         \<and> last (console (snd (agent_loop ev systemPrompt ctx iteration messages w))) = finished_line iteration)
   \<and> ((\<forall>log sys msgs. \<exists>c. messages_create ev log sys msgs = Inr c \<and> toolUses_of c \<noteq> []) \<longrightarrow>
         inference_calls (snd (runAgentLoop ev systemPrompt ctx taskPrompt w)) = inference_calls w + 20
         \<and> last (console (snd (runAgentLoop ev systemPrompt ctx taskPrompt w))) = max_iterations_line)"
proof (intro conjI allI impI)
  show "inference_calls (snd (runAgentLoop ev systemPrompt ctx taskPrompt w)) \<le> inference_calls w + 20"
    using agent_loop_bound[of ev systemPrompt ctx 1 "[MessageParam User (Plain taskPrompt)]" w]
    by (simp add: runAgentLoop_def MAX_ITERATIONS_def)
next
  fix iteration messages messages1 w1
  assume "iteration \<le> MAX_ITERATIONS
         \<and> runAgentTurn ev messages systemPrompt ctx (Some iteration) w = (True, messages1, w1)"
  then show "agent_loop ev systemPrompt ctx iteration messages w
           = (messages1, console_log (finished_line iteration) w1)"
    by (simp add: agent_loop_finished)
next
  fix iteration messages messages1 w1
  assume "iteration < MAX_ITERATIONS
         \<and> runAgentTurn ev messages systemPrompt ctx (Some iteration) w = (False, messages1, w1)"
  then show "agent_loop ev systemPrompt ctx iteration messages w
           = agent_loop ev systemPrompt ctx (iteration + 1) messages1 w1"
    by (simp add: agent_loop_continue)
next
  fix messages messages1 w1
  assume "runAgentTurn ev messages systemPrompt ctx (Some MAX_ITERATIONS) w = (False, messages1, w1)"
  then show "agent_loop ev systemPrompt ctx MAX_ITERATIONS messages w
           = (messages1, console_log max_iterations_line w1)"
    by (simp add: agent_loop_continue agent_loop_exit)
next
  fix iteration messages response_content
  assume h: "iteration \<le> MAX_ITERATIONS
         \<and> messages_create ev (network w) systemPrompt messages = Inr response_content
         \<and> toolUses_of response_content = []"
  then have loop: "agent_loop ev systemPrompt ctx iteration messages w =
      (messages @ [MessageParam Assistant (Blocks response_content)],
       console_log (finished_line iteration)
         (log_text_blocks response_content
            (record_event (MessagesCreate systemPrompt messages)
               (console_log (iteration_line iteration) w))))"
    using agent_loop_finished[OF _ runAgentTurn_no_tools, of iteration ev w systemPrompt messages response_content ctx]
    by simp
  show "fst (agent_loop ev systemPrompt ctx iteration messages w)
           = messages @ [MessageParam Assistant (Blocks response_content)]"
    by (simp add: loop)
  show "inference_calls (snd (agent_loop ev systemPrompt ctx iteration messages w)) = inference_calls w + 1"
    by (simp add: loop)
  show "last (console (snd (agent_loop ev systemPrompt ctx iteration messages w))) = finished_line iteration"
    by (simp add: loop)
next
  assume always: "\<forall>log sys msgs. \<exists>c. messages_create ev log sys msgs = Inr c \<and> toolUses_of c \<noteq> []"
  note ex = agent_loop_exhausted[OF always, of 1 systemPrompt ctx "[MessageParam User (Plain taskPrompt)]" w]
  show "inference_calls (snd (runAgentLoop ev systemPrompt ctx taskPrompt w)) = inference_calls w + 20"
    using ex by (simp add: runAgentLoop_def MAX_ITERATIONS_def)
  show "last (console (snd (runAgentLoop ev systemPrompt ctx taskPrompt w))) = max_iterations_line"
    using ex by (simp add: runAgentLoop_def MAX_ITERATIONS_def)
qed

theorem autonomous_session_bounded_witness:
  "inference_calls (snd (runAgentLoop quiet_env ''system'' team_ctx ''task'' empty_world)) = 1
   \<and> fst (runAgentLoop quiet_env ''system'' team_ctx ''task'' empty_world)
       = [MessageParam User (Plain ''task''), MessageParam Assistant (Blocks [Text ''Nothing to do.''])]
   \<and> last (console (snd (runAgentLoop quiet_env ''system'' team_ctx ''task'' empty_world))) = finished_line 1
   \<and> inference_calls (snd (runAgentLoop insistent_env ''system'' team_ctx ''task'' empty_world)) = 20
   \<and> last (console (snd (runAgentLoop insistent_env ''system'' team_ctx ''task'' empty_world))) = max_iterations_line"
proof -
  have quiet: "messages_create quiet_env (network empty_world) ''system'' [MessageParam User (Plain ''task'')]
                 = Inr [Text ''Nothing to do.'']"
    "toolUses_of [Text ''Nothing to do.''] = []"
    by (simp_all add: quiet_env_def)
  have insistent: "\<forall>log sys msgs. \<exists>c. messages_create insistent_env log sys msgs = Inr c \<and> toolUses_of c \<noteq> []"
    by (simp add: insistent_env_def)
  have zero: "inference_calls empty_world = 0"
    by (simp add: inference_calls_def empty_world_def)
  note q = autonomous_session_bounded[of quiet_env "''system''" team_ctx "''task''" empty_world,
             THEN conjunct2, THEN conjunct2, THEN conjunct2, THEN conjunct2, THEN conjunct1, rule_format,
             of 1 "[MessageParam User (Plain ''task'')]" "[Text ''Nothing to do.'']"]
  note i = autonomous_session_bounded[of insistent_env "''system''" team_ctx "''task''" empty_world,
             THEN conjunct2, THEN conjunct2, THEN conjunct2, THEN conjunct2, THEN conjunct2, THEN mp,
             OF insistent]
  from q quiet i show ?thesis
    by (simp add: runAgentLoop_def MAX_ITERATIONS_def zero)
qed









section \<open>Malformed fetch input\<close>

lemma some_repo_owner_missing:
  "some_repo JUndefined repo (r # rs) = Inl (cannot_read JUndefined ''toLowerCase'')"
  by simp








section \<open>Tool results as JSON\<close>

subsection \<open>Numbers are printed as JSON numbers\<close>









subsection \<open>Strings are quoted as JSON strings\<close>







subsection \<open>Arrays and objects\<close>


lemma json_ws_simps [simp]:
  "json_ws []" "json_ws (a @ b) \<longleftrightarrow> json_ws a \<and> json_ws b"
  "json_ws (c # s) \<longleftrightarrow> c \<in> set [CHR 0x20, CHR 0x0A, CHR 0x0D, CHR 0x09] \<and> json_ws s"
  by (auto simp: json_ws_def)










subsection \<open>What is not JSON\<close>





subsection \<open>What the executor returns\<close>







lemma post_send_await_kind:
  "post_send ev log standup_notes ctx = Await r \<Longrightarrow> \<exists>t c ns ti d. r = PostStandupToSlack t c ns ti d"
  by (auto simp: post_send_def split: sum.splits)








end
